theory Spec2Isabelle
  imports Main
begin

section \<open>Strings and letters\<close>

text \<open>
  A Python \<open>str\<close> is modelled as the list of its Unicode code points. The function
  \<open>upper\<close> is \<open>str.upper\<close> on the code points of the basic Latin and the Cyrillic
  alphabets (the program's alphabet is the Cyrillic one); every other code point is
  left as it is.
\<close>

type_synonym pystr = "nat list"

definition upper_char :: "nat \<Rightarrow> nat" where
  "upper_char c =
     (if 97 \<le> c \<and> c \<le> 122 then c - 32
      else if 1072 \<le> c \<and> c \<le> 1103 then c - 32
      else if 1104 \<le> c \<and> c \<le> 1119 then c - 80
      else c)"

definition upper :: "pystr \<Rightarrow> pystr" where
  "upper w = map upper_char w"

section \<open>grid.py: PlacedWord and Grid\<close>

text \<open>
  The direction of a word is the string \<open>'horizontal'\<close> or \<open>'vertical'\<close> in the source;
  every test \<open>direction == 'horizontal'\<close> has the vertical case as its \<open>else\<close>.
\<close>

datatype direction = Horizontal | Vertical

record PlacedWord =
  word :: pystr
  clue :: pystr
  hint :: pystr
  row :: int
  col :: int
  direction :: direction

definition pw_length :: "PlacedWord \<Rightarrow> nat" where
  "pw_length p = length (word p)"

text \<open>
  A cell holds the empty string or one letter: \<open>None\<close> is \<open>Grid.EMPTY\<close>, and a
  character of a word, being a string of length one, is never equal to it.
\<close>

type_synonym cell = "nat option"

abbreviation EMPTY :: cell where
  "EMPTY \<equiv> None"

record Grid =
  grid_size :: int
  height :: int
  width :: int
  cells :: "cell list list"
  placed_words :: "PlacedWord list"

text \<open>\<open>Grid.__init__\<close>: \<open>range(size)\<close> is empty for a size below one.\<close>

definition new_Grid :: "int \<Rightarrow> Grid" where
  "new_Grid n =
     \<lparr>grid_size = n, height = n, width = n,
      cells = replicate (nat n) (replicate (nat n) EMPTY),
      placed_words = []\<rparr>"

text \<open>
  The class invariant that the constructor sets up and every method keeps: the board
  is a rectangle of \<open>_height\<close> rows of \<open>_width\<close> cells (no rows or no cells for a
  size below one), and a board without rows has no width. Under it no index into
  \<open>_grid\<close> that passed the bounds test of \<open>get_cell\<close> or \<open>set_cell\<close> is out of range.
\<close>

definition grid_wf :: "Grid \<Rightarrow> bool" where
  "grid_wf g \<longleftrightarrow>
     length (cells g) = nat (height g) \<and>
     (\<forall>rw \<in> set (cells g). length rw = nat (width g)) \<and>
     (height g \<le> 0 \<longrightarrow> width g \<le> 0)"

definition in_bounds :: "Grid \<Rightarrow> int \<Rightarrow> int \<Rightarrow> bool" where
  "in_bounds g r c \<longleftrightarrow> 0 \<le> r \<and> r < height g \<and> 0 \<le> c \<and> c < width g"

definition get_cell :: "Grid \<Rightarrow> int \<Rightarrow> int \<Rightarrow> cell" where
  "get_cell g r c =
     (if 0 \<le> r \<and> r < height g \<and> 0 \<le> c \<and> c < width g
      then cells g ! nat r ! nat c
      else EMPTY)"

definition set_cell :: "Grid \<Rightarrow> int \<Rightarrow> int \<Rightarrow> cell \<Rightarrow> bool \<times> Grid" where
  "set_cell g r c ch =
     (if 0 \<le> r \<and> r < height g \<and> 0 \<le> c \<and> c < width g
      then (True, g\<lparr>cells := (cells g)[nat r := (cells g ! nat r)[nat c := ch]]\<rparr>)
      else (False, g))"

text \<open>\<open>Grid._has_perpendicular_word\<close>: the loop over the placed words, first hit returns.\<close>

fun has_perpendicular_word_loop :: "PlacedWord list \<Rightarrow> int \<Rightarrow> int \<Rightarrow> direction \<Rightarrow> bool" where
  "has_perpendicular_word_loop [] r c d = False"
| "has_perpendicular_word_loop (p # ps) r c d =
     (if direction p \<noteq> d then has_perpendicular_word_loop ps r c d
      else if d = Horizontal then
        (if row p = r \<and> col p \<le> c \<and> c < col p + int (pw_length p) then True
         else has_perpendicular_word_loop ps r c d)
      else
        (if col p = c \<and> row p \<le> r \<and> r < row p + int (pw_length p) then True
         else has_perpendicular_word_loop ps r c d))"

definition has_perpendicular_word :: "Grid \<Rightarrow> int \<Rightarrow> int \<Rightarrow> direction \<Rightarrow> bool" where
  "has_perpendicular_word g r c d = has_perpendicular_word_loop (placed_words g) r c d"

text \<open>
  \<open>Grid._check_adjacent_cells\<close>; the parameters \<open>pos_in_word\<close> and \<open>word_length\<close>
  are passed and never read.
\<close>

definition check_adjacent_cells :: "Grid \<Rightarrow> int \<Rightarrow> int \<Rightarrow> direction \<Rightarrow> nat \<Rightarrow> nat \<Rightarrow> bool" where
  "check_adjacent_cells g r c d pos_in_word word_length =
     (if d = Horizontal then
        (let above = get_cell g (r - 1) c; below = get_cell g (r + 1) c in
         if above \<noteq> EMPTY \<or> below \<noteq> EMPTY then
           (if \<not> has_perpendicular_word g r c Vertical then False else True)
         else True)
      else
        (let left = get_cell g r (c - 1); right = get_cell g r (c + 1) in
         if left \<noteq> EMPTY \<or> right \<noteq> EMPTY then
           (if \<not> has_perpendicular_word g r c Horizontal then False else True)
         else True))"

text \<open>The cell of the letter at offset \<open>i\<close> of a word laid out from \<open>(r, c)\<close>.\<close>

definition cell_at :: "int \<Rightarrow> int \<Rightarrow> direction \<Rightarrow> nat \<Rightarrow> int \<times> int" where
  "cell_at r c d i = (if d = Horizontal then (r, c + int i) else (r + int i, c))"

text \<open>
  The letter loop of \<open>Grid.can_place_word\<close>, from offset \<open>i\<close> on. The flag
  \<open>has_intersection\<close> of the source is written and never read, so it is left out.
\<close>

fun can_place_loop :: "Grid \<Rightarrow> int \<Rightarrow> int \<Rightarrow> direction \<Rightarrow> nat \<Rightarrow> nat \<Rightarrow> pystr \<Rightarrow> bool" where
  "can_place_loop g r c d len i [] = True"
| "can_place_loop g r c d len i (ch # rest) =
     (let (curr_row, curr_col) = cell_at r c d i;
          current_cell = get_cell g curr_row curr_col
      in if current_cell \<noteq> EMPTY \<and> current_cell \<noteq> Some ch then False
         else if current_cell = EMPTY \<and>
                 \<not> check_adjacent_cells g curr_row curr_col d i len then False
         else can_place_loop g r c d len (Suc i) rest)"

definition end_caps_ok :: "Grid \<Rightarrow> int \<Rightarrow> int \<Rightarrow> direction \<Rightarrow> nat \<Rightarrow> bool" where
  "end_caps_ok g r c d len =
     (if d = Horizontal then
        (if c > 0 \<and> get_cell g r (c - 1) \<noteq> EMPTY then False
         else if c + int len < width g \<and> get_cell g r (c + int len) \<noteq> EMPTY then False
         else True)
      else
        (if r > 0 \<and> get_cell g (r - 1) c \<noteq> EMPTY then False
         else if r + int len < height g \<and> get_cell g (r + int len) c \<noteq> EMPTY then False
         else True))"

definition can_place_word :: "Grid \<Rightarrow> pystr \<Rightarrow> int \<Rightarrow> int \<Rightarrow> direction \<Rightarrow> bool" where
  "can_place_word g w0 r c d =
     (let w = upper w0; len = length w in
      if r < 0 \<or> c < 0 then False
      else if d = Horizontal \<and> c + int len > width g then False
      else if d = Horizontal \<and> r \<ge> height g then False
      else if d \<noteq> Horizontal \<and> r + int len > height g then False
      else if d \<noteq> Horizontal \<and> c \<ge> width g then False
      else if \<not> can_place_loop g r c d len 0 w then False
      else end_caps_ok g r c d len)"

text \<open>The letter loop of \<open>Grid.place_word\<close>; the result of \<open>set_cell\<close> is dropped there.\<close>

fun write_letters :: "Grid \<Rightarrow> int \<Rightarrow> int \<Rightarrow> direction \<Rightarrow> nat \<Rightarrow> pystr \<Rightarrow> Grid" where
  "write_letters g r c d i [] = g"
| "write_letters g r c d i (ch # rest) =
     (let (cr, cc) = cell_at r c d i in
      write_letters (snd (set_cell g cr cc (Some ch))) r c d (Suc i) rest)"

definition place_word ::
  "Grid \<Rightarrow> pystr \<Rightarrow> pystr \<Rightarrow> pystr \<Rightarrow> int \<Rightarrow> int \<Rightarrow> direction \<Rightarrow> bool \<times> Grid" where
  "place_word g w0 cl hn r c d =
     (let w = upper w0 in
      if \<not> can_place_word g w r c d then (False, g)
      else
        (let g1 = write_letters g r c d 0 w;
             placed_word = \<lparr>word = w, clue = cl, hint = hn, row = r, col = c, direction = d\<rparr>
         in (True, g1\<lparr>placed_words := placed_words g1 @ [placed_word]\<rparr>)))"

text \<open>
  \<open>Grid._count_intersections\<close>: the counting loop, from offset \<open>i\<close> on, with the
  running \<open>count\<close>.
\<close>

fun count_intersections_loop ::
  "Grid \<Rightarrow> int \<Rightarrow> int \<Rightarrow> direction \<Rightarrow> nat \<Rightarrow> pystr \<Rightarrow> nat \<Rightarrow> nat" where
  "count_intersections_loop g r c d i [] count = count"
| "count_intersections_loop g r c d i (ch # rest) count =
     (let (cr, cc) = cell_at r c d i in
      count_intersections_loop g r c d (Suc i) rest
        (if get_cell g cr cc = Some ch then count + 1 else count))"

definition count_intersections :: "Grid \<Rightarrow> pystr \<Rightarrow> int \<Rightarrow> int \<Rightarrow> direction \<Rightarrow> nat" where
  "count_intersections g w r c d = count_intersections_loop g r c d 0 w 0"

text \<open>
  \<open>Grid.get_intersections\<close>. For the letter \<open>i\<close> of a placed word matched with the
  letter \<open>j\<close> of the new word, \<open>new_position\<close> is the origin and direction the source
  computes. The three nested loops append in order, which is the nested
  concatenation below.
\<close>

definition new_position :: "PlacedWord \<Rightarrow> nat \<Rightarrow> nat \<Rightarrow> int \<times> int \<times> direction" where
  "new_position placed i j =
     (if direction placed = Horizontal
      then (row placed - int j, col placed + int i, Vertical)
      else (row placed + int i, col placed - int j, Horizontal))"

definition intersections_at ::
  "Grid \<Rightarrow> pystr \<Rightarrow> PlacedWord \<Rightarrow> nat \<Rightarrow> nat \<Rightarrow> (int \<times> int \<times> direction \<times> nat) list" where
  "intersections_at g w placed i j =
     (if word placed ! i = w ! j then
        (let (new_row, new_col, new_direction) = new_position placed i j in
         if can_place_word g w new_row new_col new_direction
         then [(new_row, new_col, new_direction,
                count_intersections g w new_row new_col new_direction)]
         else [])
      else [])"

definition get_intersections :: "Grid \<Rightarrow> pystr \<Rightarrow> (int \<times> int \<times> direction \<times> nat) list" where
  "get_intersections g w0 =
     (let w = upper w0 in
      concat (map (\<lambda>placed.
        concat (map (\<lambda>i.
          concat (map (\<lambda>j. intersections_at g w placed i j) [0..<length w]))
          [0..<length (word placed)]))
        (placed_words g)))"

text \<open>
  The states of a Grid that a client can build: the constructor, then any sequence
  of \<open>place_word\<close> calls.
\<close>

inductive grid_reachable :: "Grid \<Rightarrow> bool" where
  reach_new: "grid_reachable (new_Grid n)"
| reach_place: "grid_reachable g \<Longrightarrow> grid_reachable (snd (place_word g w cl hn r c d))"

text \<open>
  A placed word is consistent with the board when each of its cells reads its
  letter (the invariant of PlacedWord in the data model).
\<close>

definition word_on_grid :: "Grid \<Rightarrow> PlacedWord \<Rightarrow> bool" where
  "word_on_grid g p \<longleftrightarrow>
     (\<forall>k < length (word p).
        get_cell g (fst (cell_at (row p) (col p) (direction p) k))
                   (snd (cell_at (row p) (col p) (direction p) k)) = Some (word p ! k))"

definition grid_consistent :: "Grid \<Rightarrow> bool" where
  "grid_consistent g \<longleftrightarrow> (\<forall>p \<in> set (placed_words g). word_on_grid g p)"

subsection \<open>The methods with their effects: the state threaded, exceptions as values\<close>

text \<open>
  \<open>can_place_word\<close> and the methods it calls, translated with the object passed in
  and handed back by every call, and with the \<open>IndexError\<close> of a list index out of
  range as a value. \<open>py_index\<close> is Python's \<open>xs[i]\<close>: a negative index counts from
  the end.
\<close>

datatype py_error = IndexError

definition py_index :: "'a list \<Rightarrow> int \<Rightarrow> py_error + 'a" where
  "py_index xs i =
     (let n = int (length xs); j = (if i < 0 then i + n else i)
      in if 0 \<le> j \<and> j < n then Inr (xs ! nat j) else Inl IndexError)"

definition get_cell_st :: "int \<Rightarrow> int \<Rightarrow> Grid \<Rightarrow> (py_error + cell) \<times> Grid" where
  "get_cell_st r c g =
     (if 0 \<le> r \<and> r < height g \<and> 0 \<le> c \<and> c < width g then
        (case py_index (cells g) r of
           Inl e \<Rightarrow> (Inl e, g)
         | Inr line \<Rightarrow>
             (case py_index line c of Inl e \<Rightarrow> (Inl e, g) | Inr v \<Rightarrow> (Inr v, g)))
      else (Inr EMPTY, g))"

definition has_perpendicular_word_st ::
  "int \<Rightarrow> int \<Rightarrow> direction \<Rightarrow> Grid \<Rightarrow> (py_error + bool) \<times> Grid" where
  "has_perpendicular_word_st r c d g =
     (Inr (has_perpendicular_word_loop (placed_words g) r c d), g)"

definition check_perpendicular_st ::
  "cell \<Rightarrow> cell \<Rightarrow> int \<Rightarrow> int \<Rightarrow> direction \<Rightarrow> Grid \<Rightarrow> (py_error + bool) \<times> Grid" where
  "check_perpendicular_st n1 n2 r c perp g =
     (if n1 \<noteq> EMPTY \<or> n2 \<noteq> EMPTY then
        (case has_perpendicular_word_st r c perp g of
           (Inl e, g1) \<Rightarrow> (Inl e, g1)
         | (Inr h, g1) \<Rightarrow> if \<not> h then (Inr False, g1) else (Inr True, g1))
      else (Inr True, g))"

definition check_adjacent_cells_st ::
  "int \<Rightarrow> int \<Rightarrow> direction \<Rightarrow> nat \<Rightarrow> nat \<Rightarrow> Grid \<Rightarrow> (py_error + bool) \<times> Grid" where
  "check_adjacent_cells_st r c d pos_in_word word_length g =
     (if d = Horizontal then
        (case get_cell_st (r - 1) c g of
           (Inl e, g1) \<Rightarrow> (Inl e, g1)
         | (Inr cell_above, g1) \<Rightarrow>
             (case get_cell_st (r + 1) c g1 of
                (Inl e, g2) \<Rightarrow> (Inl e, g2)
              | (Inr cell_below, g2) \<Rightarrow> check_perpendicular_st cell_above cell_below r c Vertical g2))
      else
        (case get_cell_st r (c - 1) g of
           (Inl e, g1) \<Rightarrow> (Inl e, g1)
         | (Inr cell_left, g1) \<Rightarrow>
             (case get_cell_st r (c + 1) g1 of
                (Inl e, g2) \<Rightarrow> (Inl e, g2)
              | (Inr cell_right, g2) \<Rightarrow> check_perpendicular_st cell_left cell_right r c Horizontal g2)))"

fun can_place_loop_st ::
  "int \<Rightarrow> int \<Rightarrow> direction \<Rightarrow> nat \<Rightarrow> nat \<Rightarrow> pystr \<Rightarrow> Grid \<Rightarrow> (py_error + bool) \<times> Grid" where
  "can_place_loop_st r c d len i [] g = (Inr True, g)"
| "can_place_loop_st r c d len i (ch # rest) g =
     (let (curr_row, curr_col) = cell_at r c d i in
      case get_cell_st curr_row curr_col g of
        (Inl e, g1) \<Rightarrow> (Inl e, g1)
      | (Inr current_cell, g1) \<Rightarrow>
          if current_cell \<noteq> EMPTY \<and> current_cell \<noteq> Some ch then (Inr False, g1)
          else if current_cell = EMPTY then
            (case check_adjacent_cells_st curr_row curr_col d i len g1 of
               (Inl e, g2) \<Rightarrow> (Inl e, g2)
             | (Inr ok, g2) \<Rightarrow>
                 if \<not> ok then (Inr False, g2)
                 else can_place_loop_st r c d len (Suc i) rest g2)
          else can_place_loop_st r c d len (Suc i) rest g1)"

text \<open>
  One end cap: \<open>if guard and self.get_cell(r, c) != EMPTY: return False\<close>; the cell
  is read only when the guard holds. The result \<open>Inr True\<close> stands for "rejected".
\<close>

definition cap_filled_st :: "bool \<Rightarrow> int \<Rightarrow> int \<Rightarrow> Grid \<Rightarrow> (py_error + bool) \<times> Grid" where
  "cap_filled_st guard r c g =
     (if guard then
        (case get_cell_st r c g of
           (Inl e, g1) \<Rightarrow> (Inl e, g1)
         | (Inr v, g1) \<Rightarrow> (Inr (v \<noteq> EMPTY), g1))
      else (Inr False, g))"

definition end_caps_st :: "int \<Rightarrow> int \<Rightarrow> direction \<Rightarrow> nat \<Rightarrow> Grid \<Rightarrow> (py_error + bool) \<times> Grid" where
  "end_caps_st r c d len g =
     (if d = Horizontal then
        (case cap_filled_st (c > 0) r (c - 1) g of
           (Inl e, g1) \<Rightarrow> (Inl e, g1)
         | (Inr True, g1) \<Rightarrow> (Inr False, g1)
         | (Inr False, g1) \<Rightarrow>
             (case cap_filled_st (c + int len < width g1) r (c + int len) g1 of
                (Inl e, g2) \<Rightarrow> (Inl e, g2)
              | (Inr True, g2) \<Rightarrow> (Inr False, g2)
              | (Inr False, g2) \<Rightarrow> (Inr True, g2)))
      else
        (case cap_filled_st (r > 0) (r - 1) c g of
           (Inl e, g1) \<Rightarrow> (Inl e, g1)
         | (Inr True, g1) \<Rightarrow> (Inr False, g1)
         | (Inr False, g1) \<Rightarrow>
             (case cap_filled_st (r + int len < height g1) (r + int len) c g1 of
                (Inl e, g2) \<Rightarrow> (Inl e, g2)
              | (Inr True, g2) \<Rightarrow> (Inr False, g2)
              | (Inr False, g2) \<Rightarrow> (Inr True, g2))))"

definition can_place_word_st ::
  "pystr \<Rightarrow> int \<Rightarrow> int \<Rightarrow> direction \<Rightarrow> Grid \<Rightarrow> (py_error + bool) \<times> Grid" where
  "can_place_word_st w0 r c d g =
     (let w = upper w0; len = length w in
      if r < 0 \<or> c < 0 then (Inr False, g)
      else if d = Horizontal \<and> c + int len > width g then (Inr False, g)
      else if d = Horizontal \<and> r \<ge> height g then (Inr False, g)
      else if d \<noteq> Horizontal \<and> r + int len > height g then (Inr False, g)
      else if d \<noteq> Horizontal \<and> c \<ge> width g then (Inr False, g)
      else
        (case can_place_loop_st r c d len 0 w g of
           (Inl e, g1) \<Rightarrow> (Inl e, g1)
         | (Inr False, g1) \<Rightarrow> (Inr False, g1)
         | (Inr True, g1) \<Rightarrow> end_caps_st r c d len g1))"

subsection \<open>Words used in the concrete scenarios\<close>

text \<open>Cyrillic capitals by code point; \<open>w_ATOM\<close> is the word of scenario 1, \<open>w_DOM\<close> of scenario 4.\<close>

definition w_ATOM :: pystr where
  "w_ATOM = [1040, 1058, 1054, 1052]"

definition w_DOM :: pystr where
  "w_DOM = [1044, 1054, 1052]"

text \<open>The word of scenario 2.\<close>

definition w_TEST :: pystr where
  "w_TEST = [1058, 1045, 1057, 1058]"

subsection \<open>Notions the properties are stated with\<close>

text \<open>
  These follow the words of the specification, not the code: a placed word runs
  through a cell when the cell is one of its cells; the perpendicular direction; a
  cell has a side neighbour, for a word of direction \<open>d\<close>, when one of the two cells
  next to it across \<open>d\<close> holds a letter; the crossings of a placement are the offsets
  whose cell already holds the word's letter.
\<close>

definition runs_through :: "PlacedWord \<Rightarrow> int \<Rightarrow> int \<Rightarrow> bool" where
  "runs_through p r c \<longleftrightarrow>
     (\<exists>k < pw_length p. cell_at (row p) (col p) (direction p) k = (r, c))"

definition perpendicular :: "direction \<Rightarrow> direction" where
  "perpendicular d = (if d = Horizontal then Vertical else Horizontal)"

definition has_side_neighbour :: "Grid \<Rightarrow> int \<Rightarrow> int \<Rightarrow> direction \<Rightarrow> bool" where
  "has_side_neighbour g r c d \<longleftrightarrow>
     (if d = Horizontal then get_cell g (r - 1) c \<noteq> EMPTY \<or> get_cell g (r + 1) c \<noteq> EMPTY
      else get_cell g r (c - 1) \<noteq> EMPTY \<or> get_cell g r (c + 1) \<noteq> EMPTY)"

definition crossings :: "Grid \<Rightarrow> pystr \<Rightarrow> int \<Rightarrow> int \<Rightarrow> direction \<Rightarrow> nat set" where
  "crossings g w r c d =
     {k. k < length w \<and>
         get_cell g (fst (cell_at r c d k)) (snd (cell_at r c d k)) = Some (w ! k)}"

text \<open>Scenario 1 of the specification, and the same word placed on it once more.\<close>

definition grid_ATOM :: Grid where
  "grid_ATOM = snd (place_word (new_Grid 10) w_ATOM [] [] 5 0 Horizontal)"

definition grid_ATOM_twice :: Grid where
  "grid_ATOM_twice = snd (place_word grid_ATOM w_ATOM [] [] 5 0 Horizontal)"

section \<open>Properties of the grid\<close>

subsection \<open>Upper case, cell writes\<close>

lemma upper_char_idem: "upper_char (upper_char c) = upper_char c"
  unfolding upper_char_def by (auto split: if_splits)

lemma upper_idem: "upper (upper w) = upper w"
  by (simp add: upper_def upper_char_idem)

lemma length_upper: "length (upper w) = length w"
  by (simp add: upper_def)

lemma set_cell_frame:
  "height (snd (set_cell g r c ch)) = height g"
  "width (snd (set_cell g r c ch)) = width g"
  "grid_size (snd (set_cell g r c ch)) = grid_size g"
  "placed_words (snd (set_cell g r c ch)) = placed_words g"
  by (simp_all add: set_cell_def)

lemma set_cell_wf:
  assumes "grid_wf g"
  shows "grid_wf (snd (set_cell g r c ch))"
proof (cases "0 \<le> r \<and> r < height g \<and> 0 \<le> c \<and> c < width g")
  case False
  then have "set_cell g r c ch = (False, g)" unfolding set_cell_def by (simp only: if_False)
  then show ?thesis using assms by simp
next
  case True
  let ?rw = "(cells g ! nat r)[nat c := ch]"
  have "nat r < length (cells g)" using True assms by (simp add: grid_wf_def nat_less_iff)
  then have "cells g ! nat r \<in> set (cells g)" by simp
  then have len: "length ?rw = nat (width g)" using assms by (simp add: grid_wf_def)
  have "set ((cells g)[nat r := ?rw]) \<subseteq> insert ?rw (set (cells g))"
    by (rule set_update_subset_insert)
  then have "\<forall>x \<in> set ((cells g)[nat r := ?rw]). length x = nat (width g)"
    using len assms unfolding grid_wf_def by blast
  then show ?thesis using True assms by (simp add: set_cell_def grid_wf_def)
qed

lemma get_set_cell:
  "grid_wf g \<Longrightarrow> get_cell (snd (set_cell g r c ch)) r' c' =
     (if in_bounds g r c \<and> r' = r \<and> c' = c then ch else get_cell g r' c')"
  unfolding grid_wf_def set_cell_def get_cell_def in_bounds_def
  by (auto simp: nth_list_update nat_less_iff)

lemma write_letters_frame:
  "height (write_letters g r c d i w) = height g"
  "width (write_letters g r c d i w) = width g"
  "grid_size (write_letters g r c d i w) = grid_size g"
  "placed_words (write_letters g r c d i w) = placed_words g"
  by (induction g r c d i w rule: write_letters.induct; simp add: set_cell_frame split: prod.splits)+

lemma write_letters_wf: "grid_wf g \<Longrightarrow> grid_wf (write_letters g r c d i w)"
  by (induction g r c d i w rule: write_letters.induct) (auto simp: set_cell_wf split: prod.splits)

lemma cell_at_inj: "cell_at r c d i = cell_at r c d j \<longleftrightarrow> i = j"
  by (auto simp: cell_at_def)

lemma in_bounds_set_cell: "in_bounds (snd (set_cell g r c ch)) r' c' = in_bounds g r' c'"
  by (simp add: in_bounds_def set_cell_frame)

lemma get_cell_write_letters_other:
  "grid_wf g \<Longrightarrow> \<forall>k<length w. cell_at r c d (i + k) \<noteq> (r', c') \<Longrightarrow>
   get_cell (write_letters g r c d i w) r' c' = get_cell g r' c'"
proof (induction g r c d i w rule: write_letters.induct)
  case (1 g r c d i)
  then show ?case by simp
next
  case (2 g r c d i ch rest)
  obtain cr cc where cc: "cell_at r c d i = (cr, cc)" by (cases "cell_at r c d i")
  have ne: "(cr, cc) \<noteq> (r', c')" using "2.prems"(2)[rule_format, of 0] cc by simp
  have rest: "\<forall>k<length rest. cell_at r c d (Suc i + k) \<noteq> (r', c')"
    using "2.prems"(2) by (auto dest: spec[where x="Suc k" for k])
  have "get_cell (write_letters (snd (set_cell g cr cc (Some ch))) r c d (Suc i) rest) r' c'
        = get_cell (snd (set_cell g cr cc (Some ch))) r' c'"
    using "2.IH"[OF cc[symmetric] refl] "2.prems"(1) rest set_cell_wf by blast
  also have "\<dots> = get_cell g r' c'"
    using ne by (auto simp: get_set_cell[OF "2.prems"(1)])
  finally show ?case using cc by simp
qed

lemma get_cell_write_letters_at:
  "grid_wf g \<Longrightarrow> \<forall>k<length w. in_bounds g (fst (cell_at r c d (i + k))) (snd (cell_at r c d (i + k))) \<Longrightarrow>
   k < length w \<Longrightarrow>
   get_cell (write_letters g r c d i w) (fst (cell_at r c d (i + k))) (snd (cell_at r c d (i + k))) = Some (w ! k)"
proof (induction g r c d i w arbitrary: k rule: write_letters.induct)
  case (1 g r c d i)
  then show ?case by simp
next
  case (2 g r c d i ch rest)
  obtain cr cc where cc: "cell_at r c d i = (cr, cc)" by (cases "cell_at r c d i")
  let ?g1 = "snd (set_cell g cr cc (Some ch))"
  have wf1: "grid_wf ?g1" using "2.prems"(1) by (rule set_cell_wf)
  have ib: "in_bounds g cr cc" using "2.prems"(2)[rule_format, of 0] cc by simp
  show ?case
  proof (cases k)
    case 0
    have "\<forall>j<length rest. cell_at r c d (Suc i + j) \<noteq> (cr, cc)"
      using cc cell_at_inj[of r c d "Suc i + j" i for j] by (metis Suc_n_not_le_n add_Suc le_add1)
    then have "get_cell (write_letters ?g1 r c d (Suc i) rest) cr cc = get_cell ?g1 cr cc"
      using get_cell_write_letters_other[OF wf1] by blast
    also have "\<dots> = Some ch" using ib by (simp add: get_set_cell[OF "2.prems"(1)])
    finally show ?thesis using 0 cc by simp
  next
    case (Suc k')
    have b: "\<forall>j<length rest. in_bounds ?g1 (fst (cell_at r c d (Suc i + j))) (snd (cell_at r c d (Suc i + j)))"
      using "2.prems"(2) by (auto simp: in_bounds_set_cell dest: spec[where x="Suc j" for j])
    have "k' < length rest" using "2.prems"(3) Suc by simp
    from "2.IH"[OF cc[symmetric] refl wf1 b this] show ?thesis using Suc cc by simp
  qed
qed

lemma can_place_word_upper: "can_place_word g (upper w) r c d = can_place_word g w r c d"
  by (simp add: can_place_word_def upper_idem)

lemma can_place_word_in_bounds:
  assumes "can_place_word g w r c d" and "k < length (upper w)"
  shows "in_bounds g (fst (cell_at r c d k)) (snd (cell_at r c d k))"
  using assms unfolding can_place_word_def in_bounds_def cell_at_def Let_def
  by (cases d) (auto split: if_splits)

lemma new_Grid_wf: "grid_wf (new_Grid n)"
  by (simp add: grid_wf_def new_Grid_def)

subsection \<open>Placement soundness\<close>

text \<open>
  C2. On a well-formed grid, \<open>place_word\<close> changes the grid exactly when
  \<open>can_place_word\<close> holds for the same arguments. When it does not hold, the call
  returns failure and the state it returns is the state it was given. When it holds,
  the call returns success, every cell of the word reads the word's (upper-cased)
  letter, every other cell reads as before, the dimensions are kept and exactly one
  PlacedWord is appended.
\<close>

theorem place_word_sound:
  assumes "grid_wf g"
  shows "(\<not> can_place_word g w r c d \<longrightarrow> place_word g w cl hn r c d = (False, g)) \<and>
         (can_place_word g w r c d \<longrightarrow>
            (\<exists>g'. place_word g w cl hn r c d = (True, g') \<and>
               placed_words g' = placed_words g @
                 [\<lparr>word = upper w, clue = cl, hint = hn, row = r, col = c, direction = d\<rparr>] \<and>
               (\<forall>k<length (upper w).
                  get_cell g' (fst (cell_at r c d k)) (snd (cell_at r c d k)) = Some (upper w ! k)) \<and>
               (\<forall>r' c'. (\<forall>k<length (upper w). cell_at r c d k \<noteq> (r', c')) \<longrightarrow>
                  get_cell g' r' c' = get_cell g r' c') \<and>
               height g' = height g \<and> width g' = width g \<and> grid_size g' = grid_size g)) \<and>
         (snd (place_word g w cl hn r c d) \<noteq> g \<longleftrightarrow> can_place_word g w r c d)"
proof (cases "can_place_word g w r c d")
  case False
  then show ?thesis by (simp add: place_word_def can_place_word_upper)
next
  case True
  let ?w = "upper w"
  let ?g1 = "write_letters g r c d 0 ?w"
  let ?p = "\<lparr>word = ?w, clue = cl, hint = hn, row = r, col = c, direction = d\<rparr>"
  let ?g' = "?g1\<lparr>placed_words := placed_words ?g1 @ [?p]\<rparr>"
  have pw: "place_word g w cl hn r c d = (True, ?g')"
    using True by (simp add: place_word_def can_place_word_upper Let_def)
  have ib: "\<forall>k<length ?w. in_bounds g (fst (cell_at r c d (0 + k))) (snd (cell_at r c d (0 + k)))"
    using can_place_word_in_bounds[OF True] by simp
  have gc: "get_cell ?g' r' c' = get_cell ?g1 r' c'" for r' c'
    by (simp add: get_cell_def)
  have a: "placed_words ?g' = placed_words g @ [?p]"
    by (simp add: write_letters_frame)
  have b: "\<forall>k<length ?w. get_cell ?g' (fst (cell_at r c d k)) (snd (cell_at r c d k)) = Some (?w ! k)"
    using get_cell_write_letters_at[OF assms ib] by (simp add: gc)
  have c: "\<forall>r' c'. (\<forall>k<length ?w. cell_at r c d k \<noteq> (r', c')) \<longrightarrow> get_cell ?g' r' c' = get_cell g r' c'"
    using get_cell_write_letters_other[OF assms, of ?w r c d 0] by (simp add: gc)
  have d: "height ?g' = height g \<and> width ?g' = width g \<and> grid_size ?g' = grid_size g"
    by (simp add: write_letters_frame)
  have e: "?g' \<noteq> g"
  proof
    assume h: "?g' = g"
    from arg_cong[OF h, of placed_words] a show False by simp
  qed
  show ?thesis using True pw a b c d e by simp
qed

theorem place_word_sound_witness:
  "grid_wf (new_Grid 10) \<and>
   can_place_word (new_Grid 10) w_ATOM 5 0 Horizontal \<and>
   fst (place_word (new_Grid 10) w_ATOM [] [] 5 0 Horizontal) \<and>
   snd (place_word (new_Grid 10) w_ATOM [] [] 5 0 Horizontal) \<noteq> new_Grid 10 \<and>
   \<not> can_place_word (new_Grid 10) w_ATOM 5 7 Horizontal \<and>
   place_word (new_Grid 10) w_ATOM [] [] 5 7 Horizontal = (False, new_Grid 10)"
proof -
  have wf: "grid_wf (new_Grid 10)" by (simp add: new_Grid_wf)
  have a: "can_place_word (new_Grid 10) w_ATOM 5 0 Horizontal" by code_simp
  have b: "\<not> can_place_word (new_Grid 10) w_ATOM 5 7 Horizontal" by code_simp
  show ?thesis
    using wf a b
      place_word_sound[OF wf, of w_ATOM 5 0 Horizontal "[]" "[]"]
      place_word_sound[OF wf, of w_ATOM 5 7 Horizontal "[]" "[]"]
    by auto
qed

subsection \<open>The stateful translation agrees with the predicate\<close>

lemma py_index_in_range: "0 \<le> i \<Longrightarrow> nat i < length xs \<Longrightarrow> py_index xs i = Inr (xs ! nat i)"
  by (auto simp: py_index_def Let_def)

lemma get_cell_st_eq:
  assumes "grid_wf g"
  shows "get_cell_st r c g = (Inr (get_cell g r c), g)"
proof (cases "0 \<le> r \<and> r < height g \<and> 0 \<le> c \<and> c < width g")
  case False
  then show ?thesis unfolding get_cell_st_def get_cell_def by (simp only: if_False)
next
  case True
  have r: "nat r < length (cells g)" using True assms by (simp add: grid_wf_def nat_less_iff)
  then have "cells g ! nat r \<in> set (cells g)" by simp
  then have c: "nat c < length (cells g ! nat r)" using True assms by (simp add: grid_wf_def nat_less_iff)
  show ?thesis using True r c
    by (simp add: get_cell_st_def get_cell_def py_index_in_range)
qed

lemma check_adjacent_cells_st_eq:
  assumes "grid_wf g"
  shows "check_adjacent_cells_st r c d i len g = (Inr (check_adjacent_cells g r c d i len), g)"
  by (simp add: check_adjacent_cells_st_def check_adjacent_cells_def get_cell_st_eq[OF assms]
      check_perpendicular_st_def has_perpendicular_word_st_def has_perpendicular_word_def Let_def)

lemma can_place_loop_st_eq:
  assumes "grid_wf g"
  shows "can_place_loop_st r c d len i w g = (Inr (can_place_loop g r c d len i w), g)"
proof (induction w arbitrary: i)
  case Nil
  show ?case by simp
next
  case (Cons ch rest)
  show ?case
    by (auto simp: get_cell_st_eq[OF assms] check_adjacent_cells_st_eq[OF assms] Cons.IH Let_def
        split: prod.splits)
qed

lemma cap_filled_st_eq:
  assumes "grid_wf g"
  shows "cap_filled_st b r c g = (Inr (b \<and> get_cell g r c \<noteq> EMPTY), g)"
  by (simp add: cap_filled_st_def get_cell_st_eq[OF assms])

lemma end_caps_st_eq:
  assumes "grid_wf g"
  shows "end_caps_st r c d len g = (Inr (end_caps_ok g r c d len), g)"
  by (auto simp: end_caps_st_def end_caps_ok_def cap_filled_st_eq[OF assms] split: bool.splits)

lemma can_place_word_st_eq:
  assumes "grid_wf g"
  shows "can_place_word_st w r c d g = (Inr (can_place_word g w r c d), g)"
  by (auto simp: can_place_word_st_def can_place_word_def Let_def
      can_place_loop_st_eq[OF assms] end_caps_st_eq[OF assms] split: bool.splits)

text \<open>
  C10. \<open>can_place_word\<close> is a pure predicate: on every well-formed grid the call
  raises nothing, returns a Boolean (the value of the predicate), and hands back the
  grid exactly as it was given: cells, dimensions and placed words.
\<close>

theorem can_place_word_pure:
  assumes "grid_wf g"
  shows "can_place_word_st w r c d g = (Inr (can_place_word g w r c d), g)"
  using assms by (rule can_place_word_st_eq)

theorem can_place_word_pure_witness:
  "grid_wf (new_Grid 10) \<and>
   can_place_word_st w_ATOM 5 0 Horizontal (new_Grid 10) = (Inr True, new_Grid 10)"
proof -
  have wf: "grid_wf (new_Grid 10)" by (rule new_Grid_wf)
  have a: "can_place_word (new_Grid 10) w_ATOM 5 0 Horizontal" by code_simp
  show ?thesis using wf a can_place_word_pure[OF wf, of w_ATOM 5 0 Horizontal] by simp
qed

subsection \<open>The parallel-adjacency rule\<close>

lemma has_perpendicular_word_loop_iff:
  "has_perpendicular_word_loop ps r c d \<longleftrightarrow>
     (\<exists>p \<in> set ps. direction p = d \<and>
        (if d = Horizontal then row p = r \<and> col p \<le> c \<and> c < col p + int (pw_length p)
         else col p = c \<and> row p \<le> r \<and> r < row p + int (pw_length p)))"
  by (induction ps) auto

lemma runs_through_iff:
  "runs_through p r c \<longleftrightarrow>
     (if direction p = Horizontal then row p = r \<and> col p \<le> c \<and> c < col p + int (pw_length p)
      else col p = c \<and> row p \<le> r \<and> r < row p + int (pw_length p))"
proof (cases "direction p = Horizontal")
  case True
  show ?thesis
  proof
    assume "runs_through p r c"
    then show "if direction p = Horizontal then row p = r \<and> col p \<le> c \<and> c < col p + int (pw_length p)
      else col p = c \<and> row p \<le> r \<and> r < row p + int (pw_length p)"
      using True by (auto simp: runs_through_def cell_at_def)
  next
    assume "if direction p = Horizontal then row p = r \<and> col p \<le> c \<and> c < col p + int (pw_length p)
      else col p = c \<and> row p \<le> r \<and> r < row p + int (pw_length p)"
    then have a: "row p = r" "col p \<le> c" "c < col p + int (pw_length p)" using True by auto
    then have "nat (c - col p) < pw_length p" by linarith
    moreover have "cell_at (row p) (col p) (direction p) (nat (c - col p)) = (r, c)"
      using a True by (simp add: cell_at_def)
    ultimately show "runs_through p r c" unfolding runs_through_def by blast
  qed
next
  case False
  show ?thesis
  proof
    assume "runs_through p r c"
    then show "if direction p = Horizontal then row p = r \<and> col p \<le> c \<and> c < col p + int (pw_length p)
      else col p = c \<and> row p \<le> r \<and> r < row p + int (pw_length p)"
      using False by (auto simp: runs_through_def cell_at_def)
  next
    assume "if direction p = Horizontal then row p = r \<and> col p \<le> c \<and> c < col p + int (pw_length p)
      else col p = c \<and> row p \<le> r \<and> r < row p + int (pw_length p)"
    then have a: "col p = c" "row p \<le> r" "r < row p + int (pw_length p)" using False by auto
    then have "nat (r - row p) < pw_length p" by linarith
    moreover have "cell_at (row p) (col p) (direction p) (nat (r - row p)) = (r, c)"
      using a False by (simp add: cell_at_def)
    ultimately show "runs_through p r c" unfolding runs_through_def by blast
  qed
qed

lemma has_perpendicular_word_iff:
  "has_perpendicular_word g r c d \<longleftrightarrow>
     (\<exists>p \<in> set (placed_words g). direction p = d \<and> runs_through p r c)"
  unfolding has_perpendicular_word_def has_perpendicular_word_loop_iff runs_through_iff
  by auto

lemma can_place_loop_iff:
  "can_place_loop g r c d len i w \<longleftrightarrow>
     (\<forall>k < length w.
        let (cr, cc) = cell_at r c d (i + k); cur = get_cell g cr cc in
        (cur = EMPTY \<or> cur = Some (w ! k)) \<and>
        (cur = EMPTY \<longrightarrow> check_adjacent_cells g cr cc d (i + k) len))"
proof (induction w arbitrary: i)
  case Nil
  show ?case by simp
next
  case (Cons ch rest)
  have split: "(\<forall>k < length (ch # rest). P k) \<longleftrightarrow> P 0 \<and> (\<forall>k < length rest. P (Suc k))" for P
    by (auto simp: less_Suc_eq_0_disj)
  show ?case
    unfolding split
    by (auto simp: Cons.IH Let_def split: prod.splits)
qed

lemma check_adjacent_cells_iff:
  "check_adjacent_cells g r c d i len \<longleftrightarrow>
     (has_side_neighbour g r c d \<longrightarrow>
        (\<exists>p \<in> set (placed_words g). direction p = perpendicular d \<and> runs_through p r c))"
  by (auto simp: check_adjacent_cells_def has_side_neighbour_def perpendicular_def
      has_perpendicular_word_iff Let_def)

lemma parallel_touch_general:
  assumes "k < length (upper w)"
    and "cell_at r c d k = (cr, cc)"
    and "get_cell g cr cc = EMPTY"
    and "has_side_neighbour g cr cc d"
    and "\<not> (\<exists>p \<in> set (placed_words g). direction p = perpendicular d \<and> runs_through p cr cc)"
  shows "\<not> can_place_word g w r c d"
proof
  assume "can_place_word g w r c d"
  then have "can_place_loop g r c d (length (upper w)) 0 (upper w)"
    by (auto simp: can_place_word_def Let_def split: if_splits)
  then have "check_adjacent_cells g cr cc d k (length (upper w))"
    using assms(1,2,3) unfolding can_place_loop_iff by (auto simp: Let_def)
  then show False using assms(4,5) by (simp add: check_adjacent_cells_iff)
qed

text \<open>
  C4. \<open>can_place_word\<close> is false whenever some cell the word would newly write (a
  cell that is empty now) has a letter next to it across the direction of the word
  (above or below for a horizontal word, left or right for a vertical one) and no
  placed word of the perpendicular direction runs through that cell. In particular,
  on the grid of size 10 with the word of scenario 1 at (5, 0) horizontally, the
  three-letter word of scenario 4 cannot be placed at (6, 0) horizontally.
\<close>

theorem parallel_touch_rejected:
  "(k < length (upper w) \<and> cell_at r c d k = (cr, cc) \<and> get_cell g cr cc = EMPTY \<and>
    has_side_neighbour g cr cc d \<and>
    \<not> (\<exists>p \<in> set (placed_words g). direction p = perpendicular d \<and> runs_through p cr cc)
    \<longrightarrow> \<not> can_place_word g w r c d) \<and>
   \<not> can_place_word grid_ATOM w_DOM 6 0 Horizontal"
proof
  show "k < length (upper w) \<and> cell_at r c d k = (cr, cc) \<and> get_cell g cr cc = EMPTY \<and>
    has_side_neighbour g cr cc d \<and>
    \<not> (\<exists>p \<in> set (placed_words g). direction p = perpendicular d \<and> runs_through p cr cc)
    \<longrightarrow> \<not> can_place_word g w r c d"
    using parallel_touch_general by blast
  show "\<not> can_place_word grid_ATOM w_DOM 6 0 Horizontal" by code_simp
qed

theorem parallel_touch_rejected_witness:
  "0 < length (upper w_DOM) \<and> cell_at 6 0 Horizontal 0 = (6, 0) \<and>
   get_cell grid_ATOM 6 0 = EMPTY \<and> has_side_neighbour grid_ATOM 6 0 Horizontal \<and>
   \<not> (\<exists>p \<in> set (placed_words grid_ATOM).
        direction p = perpendicular Horizontal \<and> runs_through p 6 0) \<and>
   \<not> can_place_word grid_ATOM w_DOM 6 0 Horizontal"
proof -
  have a: "0 < length (upper w_DOM)" by code_simp
  have b: "cell_at 6 0 Horizontal 0 = (6, 0)" by (simp add: cell_at_def)
  have c: "get_cell grid_ATOM 6 0 = EMPTY" by code_simp
  have d: "has_side_neighbour grid_ATOM 6 0 Horizontal" by code_simp
  have pw: "placed_words grid_ATOM =
      [\<lparr>word = w_ATOM, clue = [], hint = [], row = 5, col = 0, direction = Horizontal\<rparr>]"
    by code_simp
  have e: "\<not> (\<exists>p \<in> set (placed_words grid_ATOM).
        direction p = perpendicular Horizontal \<and> runs_through p 6 0)"
    by (simp add: pw perpendicular_def)
  from parallel_touch_rejected[of 0 w_DOM 6 0 Horizontal 6 0 grid_ATOM] a b c d e
  show ?thesis by blast
qed

subsection \<open>Intersection search\<close>

lemma count_intersections_loop_mono:
  "n \<le> count_intersections_loop g r c d i w n"
proof (induction w arbitrary: i n)
  case Nil show ?case by simp
next
  case (Cons ch rest)
  have "n \<le> (if get_cell g (fst (cell_at r c d i)) (snd (cell_at r c d i)) = Some ch then n + 1 else n)" by simp
  also have "\<dots> \<le> count_intersections_loop g r c d (Suc i) rest
      (if get_cell g (fst (cell_at r c d i)) (snd (cell_at r c d i)) = Some ch then n + 1 else n)"
    by (rule Cons.IH)
  finally show ?case by (simp add: split_beta)
qed

lemma count_intersections_loop_card:
  "count_intersections_loop g r c d i w n =
     n + card {k. k < length w \<and>
         get_cell g (fst (cell_at r c d (i + k))) (snd (cell_at r c d (i + k))) = Some (w ! k)}"
proof (induction w arbitrary: i n)
  case Nil show ?case by simp
next
  case (Cons ch rest)
  let ?P = "\<lambda>k. get_cell g (fst (cell_at r c d (i + k))) (snd (cell_at r c d (i + k))) = Some ((ch # rest) ! k)"
  let ?S = "{k. k < length (ch # rest) \<and> ?P k}"
  let ?T = "{k. k < length rest \<and>
         get_cell g (fst (cell_at r c d (Suc i + k))) (snd (cell_at r c d (Suc i + k))) = Some (rest ! k)}"
  have fin: "finite ?T" by simp
  have S: "?S = (if ?P 0 then {0} else {}) \<union> Suc ` ?T"
  proof (rule set_eqI)
    fix k show "k \<in> ?S \<longleftrightarrow> k \<in> (if ?P 0 then {0} else {}) \<union> Suc ` ?T"
      by (cases k) (auto simp: image_iff)
  qed
  have "card ?S = (if ?P 0 then 1 else 0) + card ?T"
  proof (cases "?P 0")
    case True
    have "card ({0} \<union> Suc ` ?T) = card {0::nat} + card (Suc ` ?T)"
      by (rule card_Un_disjoint) (use fin in auto)
    then show ?thesis using True S by (simp add: card_image)
  next
    case False
    then show ?thesis using S by (simp add: card_image)
  qed
  then show ?case by (simp add: Cons.IH split_beta)
qed

lemma count_intersections_card:
  "count_intersections g w r c d = card (crossings g w r c d)"
  by (simp add: count_intersections_def crossings_def count_intersections_loop_card)

lemma new_position_cell:
  "new_position p i j = (nr, nc, nd) \<Longrightarrow>
   nd = perpendicular (direction p) \<and>
   cell_at nr nc nd j = cell_at (row p) (col p) (direction p) i"
  by (auto simp: new_position_def perpendicular_def cell_at_def split: if_splits)

lemma get_intersections_mem:
  "(nr, nc, nd, n) \<in> set (get_intersections g w) \<longleftrightarrow>
     (\<exists>p \<in> set (placed_words g). \<exists>i < length (word p). \<exists>j < length (upper w).
        word p ! i = upper w ! j \<and> new_position p i j = (nr, nc, nd) \<and>
        can_place_word g w nr nc nd \<and> n = count_intersections g (upper w) nr nc nd)"
  apply (auto simp: get_intersections_def intersections_at_def Let_def can_place_word_upper
      split: if_splits prod.splits)
   apply blast
  apply (rule_tac x = p in bexI)
   apply (rule_tac x = i in bexI)
    apply (rule_tac x = j in bexI)
     apply simp_all
  done

lemma grid_ATOM_consistent: "grid_consistent grid_ATOM"
proof -
  have pw: "placed_words grid_ATOM =
      [\<lparr>word = w_ATOM, clue = [], hint = [], row = 5, col = 0, direction = Horizontal\<rparr>]"
    by code_simp
  have c: "get_cell grid_ATOM 5 0 = Some 1040" "get_cell grid_ATOM 5 1 = Some 1058"
    "get_cell grid_ATOM 5 2 = Some 1054" "get_cell grid_ATOM 5 3 = Some 1052"
    by code_simp+
  have "get_cell grid_ATOM 5 (int k) = Some (w_ATOM ! k)" if "k < 4" for k
  proof -
    from that consider "k = 0" | "k = 1" | "k = 2" | "k = 3" by arith
    then show ?thesis by cases (simp_all add: c w_ATOM_def)
  qed
  then show ?thesis
    unfolding grid_consistent_def pw word_on_grid_def
    by (simp add: cell_at_def w_ATOM_def)
qed

text \<open>
  C5. On a grid whose cells are consistent with its placed words, every tuple
  \<open>(row, col, direction, crossings)\<close> that \<open>get_intersections\<close> returns for a word
  can be placed there (\<open>can_place_word\<close> is true), was computed against a placed word
  of the other direction, with a letter of the new word on a cell of that word that
  holds the same letter, and its last component counts the cells of the placement
  that already hold the word's letter, which is at least one.
\<close>

theorem get_intersections_sound:
  assumes "grid_consistent g" and "(nr, nc, nd, n) \<in> set (get_intersections g w)"
  shows "can_place_word g w nr nc nd \<and>
         (\<exists>p \<in> set (placed_words g). nd = perpendicular (direction p) \<and>
            (\<exists>i < length (word p). \<exists>j < length (upper w).
               word p ! i = upper w ! j \<and>
               cell_at nr nc nd j = cell_at (row p) (col p) (direction p) i)) \<and>
         n = card (crossings g (upper w) nr nc nd) \<and> 1 \<le> n"
proof -
  from assms(2) obtain p i j where p: "p \<in> set (placed_words g)"
    and i: "i < length (word p)" and j: "j < length (upper w)"
    and eq: "word p ! i = upper w ! j" and np: "new_position p i j = (nr, nc, nd)"
    and cp: "can_place_word g w nr nc nd"
    and n: "n = count_intersections g (upper w) nr nc nd"
    unfolding get_intersections_mem by blast
  from new_position_cell[OF np]
  have nd: "nd = perpendicular (direction p)"
    and cell: "cell_at nr nc nd j = cell_at (row p) (col p) (direction p) i" by blast+
  have "word_on_grid g p" using assms(1) p by (simp add: grid_consistent_def)
  then have "get_cell g (fst (cell_at nr nc nd j)) (snd (cell_at nr nc nd j)) = Some (upper w ! j)"
    using i eq cell by (simp add: word_on_grid_def)
  then have jin: "j \<in> crossings g (upper w) nr nc nd" using j by (simp add: crossings_def)
  have fin: "finite (crossings g (upper w) nr nc nd)" by (simp add: crossings_def)
  have ncard: "n = card (crossings g (upper w) nr nc nd)" using n by (simp add: count_intersections_card)
  have "0 < card (crossings g (upper w) nr nc nd)" using jin fin by (auto simp: card_gt_0_iff)
  then have "1 \<le> n" using ncard by simp
  then show ?thesis using cp p nd i j eq cell ncard by blast
qed

theorem get_intersections_sound_witness:
  "grid_consistent grid_ATOM \<and> (5, 1, Vertical, 1) \<in> set (get_intersections grid_ATOM w_TEST) \<and>
   can_place_word grid_ATOM w_TEST 5 1 Vertical \<and>
   1 = card (crossings grid_ATOM (upper w_TEST) 5 1 Vertical)"
proof -
  have m: "(5, 1, Vertical, 1) \<in> set (get_intersections grid_ATOM w_TEST)" by code_simp
  from get_intersections_sound[OF grid_ATOM_consistent m] grid_ATOM_consistent m
  show ?thesis by blast
qed

subsection \<open>The same word twice on one grid\<close>

text \<open>
  C7, as stated, fails: \<open>place_word\<close> does not look at the words placed before.
  Placing the word of scenario 1 a second time at the same origin is accepted (every
  cell already holds the right letter and the end caps are empty), and the grid then
  holds two placed words with the same string.
\<close>

theorem duplicate_word_counterexample:
  "grid_reachable grid_ATOM_twice \<and>
   map word (placed_words grid_ATOM_twice) = [w_ATOM, w_ATOM] \<and>
   \<not> distinct (map word (placed_words grid_ATOM_twice))"
proof -
  have r: "grid_reachable grid_ATOM_twice"
    unfolding grid_ATOM_twice_def grid_ATOM_def by (intro grid_reachable.intros)
  have m: "map word (placed_words grid_ATOM_twice) = [w_ATOM, w_ATOM]" by code_simp
  show ?thesis using r m by simp
qed

end
